theory Spec2Isabelle
  imports Main "HOL-Library.Word"
begin

section \<open>Host-language values\<close>

text \<open>
  A string of the host language is a sequence of 16-bit code units. \<open>ascii\<close> embeds the
  literals of the source, which are all ASCII.
\<close>

type_synonym jsstring = "16 word list"

definition ascii :: "string \<Rightarrow> jsstring" where
  "ascii s = map of_char s"

text \<open>A string in a condition is true exactly when it is not empty.\<close>

definition truthy :: "jsstring \<Rightarrow> bool" where
  "truthy s = (s \<noteq> [])"

text \<open>
  \<open>String.prototype.trim\<close> strips the WhiteSpace and LineTerminator code units from both
  ends: TAB, LF, VT, FF, CR, SP, NBSP, U+1680, U+2000..U+200A, U+2028, U+2029, U+202F,
  U+205F, U+3000 and U+FEFF.
\<close>

definition isWhiteSpace :: "16 word \<Rightarrow> bool" where
  "isWhiteSpace c =
     (c = 9 \<or> c = 10 \<or> c = 11 \<or> c = 12 \<or> c = 13 \<or> c = 32 \<or> c = 160 \<or> c = 5760
      \<or> (8192 \<le> c \<and> c \<le> 8202) \<or> c = 8232 \<or> c = 8233 \<or> c = 8239 \<or> c = 8287
      \<or> c = 12288 \<or> c = 65279)"

definition trim :: "jsstring \<Rightarrow> jsstring" where
  "trim s = rev (dropWhile isWhiteSpace (rev (dropWhile isWhiteSpace s)))"

text \<open>
  \<open>Number.prototype.toString\<close> on an integer: the decimal digits, after a minus sign
  for a negative number. (\<open>Date.now()\<close> stays far below the magnitude at which the host
  language switches to exponent notation.)
\<close>

definition digit :: "nat \<Rightarrow> 16 word" where
  "digit d = of_nat (48 + d)"

function toString_nat :: "nat \<Rightarrow> jsstring" where
  "toString_nat n =
     (if n < 10 then [digit n] else toString_nat (n div 10) @ [digit (n mod 10)])"
  by pat_completeness auto
termination
  by (relation "measure (\<lambda>n. n)") auto

declare toString_nat.simps [simp del]

definition toString :: "int \<Rightarrow> jsstring" where
  "toString i = (if i < 0 then 45 # toString_nat (nat (- i)) else toString_nat (nat i))"

section \<open>Data model\<close>

datatype role = User | Assistant

text \<open>A citation record \<open>{ uri: string; title: string }\<close>.\<close>

record source =
  uri :: jsstring
  title :: jsstring

text \<open>
  \<open>interface Message\<close>. The optional field \<open>sources\<close> holds a reference to an array
  object, not a copy of it: the address of the array in the heap of the state, or \<open>None\<close>
  for \<open>undefined\<close>. \<open>timestamp\<close> is the \<open>Date\<close> in milliseconds.
\<close>

record message =
  id_msg :: jsstring
  role :: role
  content :: jsstring
  timestamp :: int
  sources :: "nat option"

text \<open>
  The component state: the three \<open>useState\<close> cells, and the heap of the arrays that the
  exchanges allocate with \<open>let sources = []\<close> (\<open>nextRef\<close> is the first free address).
\<close>

record state =
  messages :: "message list"
  input :: jsstring
  isLoading :: bool
  heap :: "nat \<Rightarrow> source list"
  nextRef :: nat

text \<open>\<open>useState\<close>'s initial values; \<open>t0\<close> is the \<open>new Date()\<close> of the first render.\<close>

definition greeting :: "int \<Rightarrow> message" where
  "greeting t0 =
     \<lparr>id_msg = ascii ''1'', role = Assistant,
      content = ascii ''Hello! I'm your Gemini-powered assistant. How can I help you today?'',
      timestamp = t0, sources = None\<rparr>"

definition initialState :: "int \<Rightarrow> state" where
  "initialState t0 =
     \<lparr>messages = [greeting t0], input = [], isLoading = False, heap = (\<lambda>_. []), nextRef = 0\<rparr>"

subsection \<open>What the environment supplies to one exchange\<close>

text \<open>
  The readings of the clock that \<open>handleSubmit\<close> takes, in the order of the source:
  \<open>Date.now()\<close> and \<open>new Date()\<close> for the user message, for the assistant message and
  for the message of the \<open>catch\<close> block.
\<close>

record clock =
  user_now :: int
  user_date :: int
  assistant_now :: int
  assistant_date :: int
  error_now :: int
  error_date :: int

text \<open>
  A response chunk as \<open>handleSubmit\<close> reads it: the \<open>text\<close> getter (a string or
  \<open>undefined\<close>) and the optional chain
  \<open>candidates?.[0]?.groundingMetadata?.groundingChunks\<close>, whose entries have an optional
  \<open>web\<close> with optional \<open>uri\<close> and \<open>title\<close>.
\<close>

record groundingChunkWeb =
  web_uri :: "jsstring option"
  web_title :: "jsstring option"

record groundingChunk =
  web :: "groundingChunkWeb option"

record groundingMetadata =
  groundingChunks :: "groundingChunk list option"

record candidate =
  groundingMetadata :: "groundingMetadata option"

record generateContentResponse =
  chunk_text :: "jsstring option"
  candidates :: "candidate list option"

text \<open>
  The asynchronous iterator delivers chunks until it is exhausted or its \<open>next()\<close>
  rejects. A chunk arrives on its own, and React runs the queued state updates before the
  next event (\<open>Chunk\<close>); or several chunks arrive together, and the loop takes them one
  after the other before React runs the queued state updates (\<open>Burst\<close>). The call that
  opens the exchange either fails while the context is created, fails while the message is
  sent, or returns the iterator.
\<close>

datatype event = Chunk generateContentResponse | Burst "generateContentResponse list" | IterFault

datatype sendResult = ContextFault | SendFault | ResponseStream "event list"

datatype error = ChatError

section \<open>The operations of \<open>handleSubmit\<close>\<close>

text \<open>
  \<open>setMessages((prev) => ...)\<close> queues an updater, and React runs the queued updaters in
  the order of the queue when it next renders. The updaters that append a message read no
  variable that changes afterwards (the clock readings of the placeholder and of the apology
  are the readings taken when the updater runs), so the model appends where the source
  issues the update. The updater of lines 115-121 is a closure over \<open>assistantContent\<close> and
  \<open>sources\<close> and reads both when React runs it: the model keeps issuing the update
  (\<open>accumulate\<close>) apart from running it (\<open>run_patch\<close>).
\<close>

text \<open>The updater of lines 115-121: \<open>prev.map\<close> patches every message with the given id.\<close>

definition updateById :: "jsstring \<Rightarrow> jsstring \<Rightarrow> nat option \<Rightarrow> message list \<Rightarrow> message list" where
  "updateById assistantMessageId c s prev =
     map (\<lambda>msg. if id_msg msg = assistantMessageId then msg\<lparr>content := c, sources := s\<rparr> else msg) prev"

text \<open>Line 102: the optional chain down to \<open>groundingChunks\<close>.\<close>

definition groundingChunks_of :: "generateContentResponse \<Rightarrow> groundingChunk list option" where
  "groundingChunks_of chunk =
     (case candidates chunk of
        None \<Rightarrow> None
      | Some [] \<Rightarrow> None
      | Some (c # _) \<Rightarrow>
          (case groundingMetadata c of None \<Rightarrow> None | Some gm \<Rightarrow> groundingChunks gm))"

text \<open>Lines 105-109: the body of \<open>forEach\<close>, on the array \<open>srcs\<close>.\<close>

definition push_source :: "source list \<Rightarrow> groundingChunk \<Rightarrow> source list" where
  "push_source srcs c =
     (case web c of
        None \<Rightarrow> srcs
      | Some w \<Rightarrow>
          (case web_uri w of
             None \<Rightarrow> srcs
           | Some u \<Rightarrow>
               (case web_title w of
                  None \<Rightarrow> srcs
                | Some t \<Rightarrow>
                    if truthy u \<and> truthy t
                    then (if find (\<lambda>s. uri s = u) srcs = None
                          then srcs @ [\<lparr>uri = u, title = t\<rparr>] else srcs)
                    else srcs)))"

fun forEach :: "source list \<Rightarrow> groundingChunk list \<Rightarrow> source list" where
  "forEach srcs [] = srcs"
| "forEach srcs (c # cs) = forEach (push_source srcs c) cs"

text \<open>
  Lines 99-114: what the body of the loop does to the two accumulators, and whether it
  issues the state update of line 115. \<open>a\<close> is the address of the array \<open>sources\<close>, the
  first component of the pair \<open>l\<close> is \<open>assistantContent\<close>.
\<close>

definition accumulate ::
  "nat \<Rightarrow> jsstring \<times> state \<Rightarrow> generateContentResponse \<Rightarrow> bool \<times> jsstring \<times> state" where
  "accumulate a l chunk =
     (let assistantContent = fst l;
          st = snd l;
          st1 = (case groundingChunks_of chunk of
                   None \<Rightarrow> st
                 | Some gcs \<Rightarrow> st\<lparr>heap := (heap st)(a := forEach (heap st a) gcs)\<rparr>)
      in case chunk_text chunk of
           None \<Rightarrow> (False, assistantContent, st1)
         | Some chunkText \<Rightarrow>
             if truthy chunkText then (True, assistantContent @ chunkText, st1)
             else (False, assistantContent, st1))"

text \<open>
  Lines 115-121, when React runs the updater: the content and the sources are the values
  that \<open>assistantContent\<close> and \<open>sources\<close> have then. Updaters of one exchange that run
  together all write the same values, so running one of them is running all.
\<close>

definition run_patch :: "jsstring \<Rightarrow> nat \<Rightarrow> jsstring \<times> state \<Rightarrow> jsstring \<times> state" where
  "run_patch assistantMessageId a l =
     (fst l,
      (snd l)\<lparr>messages :=
                updateById assistantMessageId (fst l)
                  (if length (heap (snd l) a) > 0 then Some a else None) (messages (snd l))\<rparr>)"

text \<open>A chunk that arrives on its own: the body of the loop, then the updater if one was issued.\<close>

definition on_chunk ::
  "jsstring \<Rightarrow> nat \<Rightarrow> jsstring \<times> state \<Rightarrow> generateContentResponse \<Rightarrow> jsstring \<times> state" where
  "on_chunk assistantMessageId a l chunk =
     (let res = accumulate a l chunk
      in if fst res then run_patch assistantMessageId a (snd res) else snd res)"

text \<open>
  Chunks that arrive together: the body of the loop for each of them in turn, then the
  updaters if any was issued.
\<close>

fun take_burst ::
  "nat \<Rightarrow> bool \<times> jsstring \<times> state \<Rightarrow> generateContentResponse list \<Rightarrow> bool \<times> jsstring \<times> state" where
  "take_burst a res [] = res"
| "take_burst a res (chunk # chunks) =
     take_burst a (fst res \<or> fst (accumulate a (snd res) chunk),
                   snd (accumulate a (snd res) chunk)) chunks"

definition on_burst ::
  "jsstring \<Rightarrow> nat \<Rightarrow> jsstring \<times> state \<Rightarrow> generateContentResponse list \<Rightarrow> jsstring \<times> state" where
  "on_burst assistantMessageId a l chunks =
     (let res = take_burst a (False, l) chunks
      in if fst res then run_patch assistantMessageId a (snd res) else snd res)"

text \<open>Line 98: \<open>for await\<close>. A rejection leaves the loop with what was done so far.\<close>

fun for_await ::
  "jsstring \<Rightarrow> nat \<Rightarrow> jsstring \<times> state \<Rightarrow> event list \<Rightarrow> error option \<times> jsstring \<times> state" where
  "for_await assistantMessageId a l [] = (None, l)"
| "for_await assistantMessageId a l (IterFault # _) = (Some ChatError, l)"
| "for_await assistantMessageId a l (Chunk chunk # evs) =
     for_await assistantMessageId a (on_chunk assistantMessageId a l chunk) evs"
| "for_await assistantMessageId a l (Burst chunks # evs) =
     for_await assistantMessageId a (on_burst assistantMessageId a l chunks) evs"

text \<open>Lines 84-96: the id, the two accumulators and the placeholder message.\<close>

definition placeholder :: "clock \<Rightarrow> message" where
  "placeholder clk =
     \<lparr>id_msg = toString (assistant_now clk + 1), role = Assistant, content = [],
      timestamp = assistant_date clk, sources = None\<rparr>"

definition open_stream :: "state \<Rightarrow> clock \<Rightarrow> state" where
  "open_stream st clk =
     st\<lparr>messages := messages st @ [placeholder clk],
        heap := (heap st)(nextRef st := []),
        nextRef := Suc (nextRef st)\<rparr>"

text \<open>Lines 70-123: the \<open>try\<close> block; the state it leaves, and whether it threw.\<close>

definition try_block :: "state \<Rightarrow> clock \<Rightarrow> sendResult \<Rightarrow> error option \<times> state" where
  "try_block st clk r =
     (case r of
        ContextFault \<Rightarrow> (Some ChatError, st)
      | SendFault \<Rightarrow> (Some ChatError, st)
      | ResponseStream evs \<Rightarrow>
          (let res = for_await (toString (assistant_now clk + 1)) (nextRef st)
                       ([], open_stream st clk) evs
           in (fst res, snd (snd res))))"

text \<open>Lines 124-134: the \<open>catch\<close> block.\<close>

definition apology :: "clock \<Rightarrow> message" where
  "apology clk =
     \<lparr>id_msg = toString (error_now clk), role = Assistant,
      content = ascii ''I'm sorry, I encountered an error. Please try again.'',
      timestamp = error_date clk, sources = None\<rparr>"

definition catch_block :: "state \<Rightarrow> clock \<Rightarrow> state" where
  "catch_block st clk = st\<lparr>messages := messages st @ [apology clk]\<rparr>"

text \<open>Lines 59-68: the user message and the three state updates before \<open>try\<close>.\<close>

definition userMessage :: "state \<Rightarrow> clock \<Rightarrow> message" where
  "userMessage st clk =
     \<lparr>id_msg = toString (user_now clk), role = User, content = input st,
      timestamp = user_date clk, sources = None\<rparr>"

definition begin_submit :: "state \<Rightarrow> clock \<Rightarrow> state" where
  "begin_submit st clk =
     st\<lparr>messages := messages st @ [userMessage st clk], input := [], isLoading := True\<rparr>"

text \<open>
  Lines 55-138. The result is \<open>Inl\<close> where the promise of \<open>handleSubmit\<close> would reject,
  and the state it leaves otherwise.
\<close>

definition handleSubmit :: "state \<Rightarrow> clock \<Rightarrow> sendResult \<Rightarrow> error + state" where
  "handleSubmit st clk r =
     (if \<not> truthy (trim (input st)) \<or> isLoading st then Inr st
      else
        (case try_block (begin_submit st clk) clk r of
           (None, st') \<Rightarrow> Inr (st'\<lparr>isLoading := False\<rparr>)
         | (Some e, st') \<Rightarrow> Inr ((catch_block st' clk)\<lparr>isLoading := False\<rparr>)))"

text \<open>
  A session: the user types a text into the input field (\<open>setInput\<close>) and submits it, one
  exchange after the other.
\<close>

fun session :: "state \<Rightarrow> (jsstring \<times> clock \<times> sendResult) list \<Rightarrow> state" where
  "session st [] = st"
| "session st ((txt, clk, r) # xs) =
     (case handleSubmit (st\<lparr>input := txt\<rparr>) clk r of
        Inl e \<Rightarrow> st
      | Inr st' \<Rightarrow> session st' xs)"

section \<open>Vocabulary of the properties\<close>

text \<open>The text delta a chunk carries: nothing when \<open>text\<close> is \<open>undefined\<close>.\<close>

definition text_delta :: "generateContentResponse \<Rightarrow> jsstring" where
  "text_delta chunk = (case chunk_text chunk of None \<Rightarrow> [] | Some t \<Rightarrow> t)"

text \<open>The citation entries a chunk carries: none when the optional chain is \<open>undefined\<close>.\<close>

definition citations :: "generateContentResponse \<Rightarrow> groundingChunk list" where
  "citations chunk = (case groundingChunks_of chunk of None \<Rightarrow> [] | Some gcs \<Rightarrow> gcs)"

text \<open>The chunks that the loop takes from a stream: those before the first rejection.\<close>

fun delivered :: "event list \<Rightarrow> generateContentResponse list" where
  "delivered [] = []"
| "delivered (IterFault # _) = []"
| "delivered (Chunk chunk # evs) = chunk # delivered evs"
| "delivered (Burst chunks # evs) = chunks @ delivered evs"

text \<open>
  The \<open>{uri, title}\<close> pair of a citation entry that has both fields, and the pair of an
  entry that passes the guard of line 105, where an empty string counts as absent.
\<close>

definition pair_of :: "groundingChunk \<Rightarrow> source option" where
  "pair_of c =
     (case web c of
        None \<Rightarrow> None
      | Some w \<Rightarrow>
          (case web_uri w of
             None \<Rightarrow> None
           | Some u \<Rightarrow>
               (case web_title w of None \<Rightarrow> None | Some t \<Rightarrow> Some \<lparr>uri = u, title = t\<rparr>)))"

definition kept_pair :: "groundingChunk \<Rightarrow> source option" where
  "kept_pair c =
     (case pair_of c of
        None \<Rightarrow> None
      | Some p \<Rightarrow> if truthy (uri p) \<and> truthy (title p) then Some p else None)"

text \<open>
  The specification of the merge, in the words of the property: of the pairs with one uri
  the first stays, and the pairs stay in the order in which they were first seen.
\<close>

fun first_seen :: "source list \<Rightarrow> source list" where
  "first_seen [] = []"
| "first_seen (p # ps) = p # filter (\<lambda>q. uri q \<noteq> uri p) (first_seen ps)"

text \<open>
  Two invariants of the loop. \<open>tracks\<close>: the last message of the list is the placeholder
  and shows the accumulated content. \<open>patched\<close>: a message list is an earlier one, with at
  most the messages of one id patched.
\<close>

definition tracks :: "jsstring \<Rightarrow> jsstring \<times> state \<Rightarrow> bool" where
  "tracks aid l \<longleftrightarrow>
     messages (snd l) \<noteq> [] \<and> id_msg (last (messages (snd l))) = aid
     \<and> content (last (messages (snd l))) = fst l \<and> role (last (messages (snd l))) = Assistant"

definition patched :: "jsstring \<Rightarrow> message list \<Rightarrow> message list \<Rightarrow> bool" where
  "patched aid ms ms' \<longleftrightarrow> ms' = ms \<or> (\<exists>c s. ms' = updateById aid c s ms)"

subsection \<open>Concrete inputs\<close>

text \<open>
  The first render with a text typed into the field; a clock that reads \<open>t1\<close> at the user
  message, \<open>t2\<close> at the assistant message and \<open>t3\<close> in the \<open>catch\<close> block; chunks with a
  text only, and chunks with citation entries.
\<close>

definition typed :: "string \<Rightarrow> state" where
  "typed s = (initialState 0)\<lparr>input := ascii s\<rparr>"

definition ticks :: "int \<Rightarrow> int \<Rightarrow> int \<Rightarrow> clock" where
  "ticks t1 t2 t3 =
     \<lparr>user_now = t1, user_date = t1, assistant_now = t2, assistant_date = t2,
      error_now = t3, error_date = t3\<rparr>"

definition text_chunk :: "string \<Rightarrow> generateContentResponse" where
  "text_chunk s = \<lparr>chunk_text = Some (ascii s), candidates = None\<rparr>"

definition web_chunk :: "string \<Rightarrow> string \<Rightarrow> groundingChunk" where
  "web_chunk u t = \<lparr>web = Some \<lparr>web_uri = Some (ascii u), web_title = Some (ascii t)\<rparr>\<rparr>"

definition cited_chunk :: "jsstring option \<Rightarrow> groundingChunk list \<Rightarrow> generateContentResponse" where
  "cited_chunk t gcs =
     \<lparr>chunk_text = t,
      candidates = Some [\<lparr>groundingMetadata = Some \<lparr>groundingChunks = Some gcs\<rparr>\<rparr>]\<rparr>"

lemmas model_defs =
  handleSubmit_def try_block_def catch_block_def begin_submit_def open_stream_def
  userMessage_def placeholder_def apology_def on_chunk_def on_burst_def accumulate_def
  run_patch_def updateById_def
  groundingChunks_of_def push_source_def initialState_def greeting_def
  truthy_def trim_def isWhiteSpace_def ascii_def toString_def toString_nat.simps digit_def
  typed_def ticks_def text_chunk_def web_chunk_def cited_chunk_def Let_def

section \<open>Strings\<close>

lemma trim_all_ws: "\<forall>c \<in> set s. isWhiteSpace c \<Longrightarrow> trim s = []"
  by (auto simp: trim_def dest: set_dropWhileD)

lemma trim_empty_iff: "trim s = [] \<longleftrightarrow> (\<forall>c \<in> set s. isWhiteSpace c)"
proof
  assume "trim s = []"
  then have a: "\<forall>x \<in> set (dropWhile isWhiteSpace s). isWhiteSpace x"
    by (simp add: trim_def)
  have "dropWhile isWhiteSpace s = []"
  proof (rule ccontr)
    assume n: "dropWhile isWhiteSpace s \<noteq> []"
    then have "\<not> isWhiteSpace (hd (dropWhile isWhiteSpace s))" by (rule hd_dropWhile)
    moreover have "hd (dropWhile isWhiteSpace s) \<in> set (dropWhile isWhiteSpace s)"
      using n by simp
    ultimately show False using a by blast
  qed
  then show "\<forall>c \<in> set s. isWhiteSpace c" by simp
next
  assume "\<forall>c \<in> set s. isWhiteSpace c"
  then show "trim s = []" by (rule trim_all_ws)
qed

lemma digit_one: "d < 10 \<Longrightarrow> digit d = 49 \<longleftrightarrow> d = 1"
proof -
  assume "d < 10"
  then have "d = 0 \<or> d = 1 \<or> d = 2 \<or> d = 3 \<or> d = 4 \<or> d = 5 \<or> d = 6
    \<or> d = 7 \<or> d = 8 \<or> d = 9"
    by arith
  then show ?thesis by (elim disjE) (simp_all add: digit_def)
qed

lemma toString_nat_not_Nil: "toString_nat n \<noteq> []"
  by (subst toString_nat.simps) simp

lemma toString_nat_one: "toString_nat n = [49] \<longleftrightarrow> n = 1"
proof (cases "n < 10")
  case True
  then show ?thesis by (subst toString_nat.simps) (simp add: digit_one)
next
  case False
  then have "toString_nat n = toString_nat (n div 10) @ [digit (n mod 10)]"
    by (subst toString_nat.simps) simp
  with False show ?thesis by (auto simp: toString_nat_not_Nil)
qed

lemma toString_one: "toString i = ascii ''1'' \<longleftrightarrow> i = 1"
proof -
  have "ascii ''1'' = [49]" by (simp add: ascii_def)
  then show ?thesis by (auto simp: toString_def toString_nat_one)
qed

section \<open>The conversation store\<close>

lemma updateById_length: "length (updateById aid c s ms) = length ms"
  by (simp add: updateById_def)

lemma updateById_Nil: "updateById aid c s ms = [] \<longleftrightarrow> ms = []"
  by (simp add: updateById_def)

lemma updateById_last:
  "ms \<noteq> [] \<Longrightarrow> id_msg (last ms) = aid \<Longrightarrow>
   id_msg (last (updateById aid c s ms)) = aid \<and> content (last (updateById aid c s ms)) = c
   \<and> sources (last (updateById aid c s ms)) = s
   \<and> role (last (updateById aid c s ms)) = role (last ms)"
  by (simp add: updateById_def last_map)

lemma updateById_twice:
  "updateById aid c s (updateById aid c' s' ms) = updateById aid c s ms"
  by (simp add: updateById_def)

lemma patched_refl: "patched aid ms ms"
  by (simp add: patched_def)

lemma patched_step: "patched aid ms ms' \<Longrightarrow> patched aid ms (updateById aid c s ms')"
  unfolding patched_def by (metis updateById_twice)

lemma patched_length: "patched aid ms ms' \<Longrightarrow> length ms' = length ms"
  by (auto simp: patched_def updateById_length)

lemma patched_nth:
  "patched aid ms ms' \<Longrightarrow> i < length ms \<Longrightarrow>
   id_msg (ms' ! i) = id_msg (ms ! i) \<and> role (ms' ! i) = role (ms ! i)
   \<and> timestamp (ms' ! i) = timestamp (ms ! i)
   \<and> (id_msg (ms ! i) \<noteq> aid \<longrightarrow> ms' ! i = ms ! i)"
  by (auto simp: patched_def updateById_def)

lemma patched_head:
  "patched aid (g # rest) ms' \<Longrightarrow> id_msg g \<noteq> aid \<Longrightarrow> \<exists>rest'. ms' = g # rest'"
  by (auto simp: patched_def updateById_def)

section \<open>The source merge\<close>

lemma push_source_kept:
  "push_source srcs c =
     (case kept_pair c of
        None \<Rightarrow> srcs
      | Some p \<Rightarrow> if uri p \<in> uri ` set srcs then srcs else srcs @ [p])"
  by (auto simp: push_source_def kept_pair_def pair_of_def find_None_iff image_iff
      split: option.splits)

lemma push_source_discards:
  "pair_of c = None \<or> (\<exists>p. pair_of c = Some p \<and> (uri p = [] \<or> title p = [])) \<Longrightarrow>
   push_source srcs c = srcs"
  by (auto simp: push_source_kept kept_pair_def truthy_def)

lemma forEach_append: "forEach srcs (xs @ ys) = forEach (forEach srcs xs) ys"
  by (induction xs arbitrary: srcs) simp_all

text \<open>
  The merge into any array: the array, then the first-seen pairs whose uri it does not hold.
\<close>

lemma forEach_first_seen:
  "forEach srcs gcs =
     srcs @ filter (\<lambda>q. uri q \<notin> uri ` set srcs) (first_seen (List.map_filter kept_pair gcs))"
proof (induction gcs arbitrary: srcs)
  case Nil
  show ?case by (simp add: List.map_filter_simps)
next
  case (Cons c gcs)
  show ?case
  proof (cases "kept_pair c")
    case None
    then show ?thesis by (simp add: Cons.IH push_source_kept List.map_filter_simps)
  next
    case (Some p)
    show ?thesis
    proof (cases "uri p \<in> uri ` set srcs")
      case True
      have eq: "filter (\<lambda>q. uri q \<noteq> uri p \<and> uri q \<notin> uri ` set srcs) xs
            = filter (\<lambda>q. uri q \<notin> uri ` set srcs) xs" for xs
        using True by (intro filter_cong) auto
      show ?thesis
        using True Some by (simp add: Cons.IH push_source_kept List.map_filter_simps eq)
    next
      case False
      show ?thesis
        using False Some
        by (simp add: Cons.IH push_source_kept List.map_filter_simps conj_commute)
    qed
  qed
qed

lemma forEach_from_Nil: "forEach [] gcs = first_seen (List.map_filter kept_pair gcs)"
  by (simp add: forEach_first_seen)

lemma image_except: "insert k (f ` {x \<in> S. f x \<noteq> k}) = insert k (f ` S)"
  by auto

lemma set_first_seen: "uri ` set (first_seen ps) = uri ` set ps"
proof (induction ps)
  case Nil
  show ?case by simp
next
  case (Cons p ps)
  have "uri ` set (first_seen (p # ps))
        = insert (uri p) (uri ` {x \<in> set (first_seen ps). uri x \<noteq> uri p})"
    by simp
  also have "\<dots> = insert (uri p) (uri ` set (first_seen ps))"
    by (rule image_except)
  finally show ?case by (simp add: Cons.IH)
qed

lemma distinct_first_seen: "distinct (map uri (first_seen ps))"
  by (induction ps) (auto simp: distinct_map_filter)

lemma once_if_distinct:
  "distinct (map f xs) \<Longrightarrow> x \<in> set xs \<Longrightarrow> length (filter (\<lambda>s. f s = f x) xs) = 1"
proof (induction xs)
  case Nil
  then show ?case by simp
next
  case (Cons y ys)
  show ?case
  proof (cases "f y = f x")
    case True
    with Cons.prems have "\<forall>s \<in> set ys. f s \<noteq> f x" by (auto simp: image_iff)
    then have "filter (\<lambda>s. f s = f x) ys = []" by (simp add: filter_empty_conv)
    with True show ?thesis by simp
  next
    case False
    with Cons show ?thesis by auto
  qed
qed

lemma forEach_once:
  assumes "c \<in> set gcs" and "kept_pair c = Some p"
  shows "length (filter (\<lambda>s. uri s = uri p) (forEach [] gcs)) = 1"
proof -
  let ?ps = "List.map_filter kept_pair gcs"
  have "p \<in> set ?ps"
    using assms by (force simp: List.map_filter_def)
  then have "uri p \<in> uri ` set (first_seen ?ps)"
    by (simp add: set_first_seen)
  then obtain q where q: "q \<in> set (first_seen ?ps)" "uri q = uri p" by auto
  have "length (filter (\<lambda>s. uri s = uri q) (first_seen ?ps)) = 1"
    using distinct_first_seen q(1) by (rule once_if_distinct)
  then show ?thesis by (simp add: forEach_from_Nil q(2))
qed

lemma forEach_idem: "forEach (forEach srcs gcs) gcs = forEach srcs gcs"
proof -
  let ?ps = "first_seen (List.map_filter kept_pair gcs)"
  have "\<forall>q \<in> set ?ps. uri q \<in> uri ` set (forEach srcs gcs)"
    by (subst forEach_first_seen) auto
  then have "filter (\<lambda>q. uri q \<notin> uri ` set (forEach srcs gcs)) ?ps = []"
    by (simp add: filter_empty_conv)
  then show ?thesis
    by (subst forEach_first_seen) simp
qed

section \<open>The loop over the chunks\<close>

lemma accumulate_issued: "fst (accumulate a l c) = truthy (text_delta c)"
  by (simp add: accumulate_def text_delta_def truthy_def Let_def split: option.splits)

lemma accumulate_content: "fst (snd (accumulate a l c)) = fst l @ text_delta c"
  by (simp add: accumulate_def text_delta_def truthy_def Let_def split: option.splits)

lemma accumulate_heap:
  "heap (snd (snd (accumulate a l c))) =
     (heap (snd l))(a := forEach (heap (snd l) a) (citations c))"
  by (simp add: accumulate_def citations_def Let_def fun_upd_idem split: option.splits)

lemma accumulate_messages: "messages (snd (snd (accumulate a l c))) = messages (snd l)"
  by (simp add: accumulate_def Let_def split: option.splits)

lemma take_burst_issued:
  "fst (take_burst a (b, l) cs) = (b \<or> (\<exists>c \<in> set cs. truthy (text_delta c)))"
  by (induction cs arbitrary: b l) (auto simp: accumulate_issued)

lemma take_burst_content:
  "fst (snd (take_burst a (b, l) cs)) = fst l @ concat (map text_delta cs)"
  by (induction cs arbitrary: b l) (simp_all add: accumulate_content)

lemma take_burst_heap:
  "heap (snd (snd (take_burst a (b, l) cs))) =
     (heap (snd l))(a := forEach (heap (snd l) a) (concat (map citations cs)))"
  by (induction cs arbitrary: b l) (simp_all add: accumulate_heap forEach_append)

lemma take_burst_messages: "messages (snd (snd (take_burst a (b, l) cs))) = messages (snd l)"
  by (induction cs arbitrary: b l) (simp_all add: accumulate_messages)

lemma on_burst_content: "fst (on_burst aid a l cs) = fst l @ concat (map text_delta cs)"
  by (simp add: on_burst_def run_patch_def take_burst_content Let_def)

lemma on_burst_heap:
  "heap (snd (on_burst aid a l cs)) =
     (heap (snd l))(a := forEach (heap (snd l) a) (concat (map citations cs)))"
  by (simp add: on_burst_def run_patch_def take_burst_heap Let_def)

lemma on_burst_messages:
  "messages (snd (on_burst aid a l cs)) =
     (if \<exists>c \<in> set cs. truthy (text_delta c)
      then updateById aid (fst l @ concat (map text_delta cs))
             (if heap (snd (on_burst aid a l cs)) a = [] then None else Some a) (messages (snd l))
      else messages (snd l))"
  by (simp add: on_burst_def run_patch_def take_burst_issued take_burst_content
      take_burst_heap take_burst_messages Let_def)

lemma on_chunk_burst: "on_chunk aid a l c = on_burst aid a l [c]"
  by (simp add: on_chunk_def on_burst_def Let_def)

lemma on_chunk_content: "fst (on_chunk aid a l c) = fst l @ text_delta c"
  by (simp add: on_chunk_burst on_burst_content)

lemma on_chunk_heap:
  "heap (snd (on_chunk aid a l c)) = (heap (snd l))(a := forEach (heap (snd l) a) (citations c))"
  by (simp add: on_chunk_burst on_burst_heap)

lemma on_chunk_messages:
  "messages (snd (on_chunk aid a l c)) =
     (if truthy (text_delta c)
      then updateById aid (fst l @ text_delta c)
             (if heap (snd (on_chunk aid a l c)) a = [] then None else Some a) (messages (snd l))
      else messages (snd l))"
  by (simp add: on_chunk_burst on_burst_messages)

lemma no_text_no_delta:
  "\<not> (\<exists>c \<in> set cs. truthy (text_delta c)) \<Longrightarrow> concat (map text_delta cs) = []"
  by (induction cs) (simp_all add: truthy_def)

lemma on_burst_tracks: "tracks aid l \<Longrightarrow> tracks aid (on_burst aid a l cs)"
  unfolding tracks_def
  by (simp add: on_burst_messages on_burst_content updateById_last updateById_Nil
      no_text_no_delta)

lemma on_burst_patched:
  "patched aid ms (messages (snd l)) \<Longrightarrow> patched aid ms (messages (snd (on_burst aid a l cs)))"
  by (simp add: on_burst_messages patched_step)

lemma on_chunk_tracks: "tracks aid l \<Longrightarrow> tracks aid (on_chunk aid a l c)"
  unfolding tracks_def
  by (simp add: on_chunk_messages on_chunk_content updateById_last updateById_Nil truthy_def)

lemma on_chunk_patched:
  "patched aid ms (messages (snd l)) \<Longrightarrow> patched aid ms (messages (snd (on_chunk aid a l c)))"
  by (simp add: on_chunk_messages patched_step)

text \<open>On chunks only, the loop is a fold of its body and does not throw.\<close>

lemma for_await_chunks:
  "for_await aid a l (map Chunk cs) = (None, fold (\<lambda>c l. on_chunk aid a l c) cs l)"
  by (induction cs arbitrary: l) simp_all

lemma for_await_append:
  "for_await aid a l (map Chunk cs @ evs) =
     for_await aid a (fold (\<lambda>c l. on_chunk aid a l c) cs l) evs"
  by (induction cs arbitrary: l) simp_all

lemma for_await_patched:
  "patched aid ms (messages (snd l)) \<Longrightarrow>
   patched aid ms (messages (snd (snd (for_await aid a l evs))))"
  by (induction aid a l evs rule: for_await.induct)
    (simp_all add: on_chunk_patched on_burst_patched)

text \<open>On any stream: the accumulators, the invariant, and whether the loop throws.\<close>

lemma for_await_content:
  "fst (snd (for_await aid a l evs)) = fst l @ concat (map text_delta (delivered evs))"
  by (induction aid a l evs rule: for_await.induct)
    (simp_all add: on_chunk_content on_burst_content)

lemma for_await_heap:
  "heap (snd (snd (for_await aid a l evs))) =
     (heap (snd l))(a := forEach (heap (snd l) a) (concat (map citations (delivered evs))))"
proof (induction aid a l evs rule: for_await.induct)
  case (3 aid a l chunk evs)
  have "(heap (snd (on_chunk aid a l chunk)))
          (a := forEach (heap (snd (on_chunk aid a l chunk)) a)
                  (concat (map citations (delivered evs))))
        = (heap (snd l))
            (a := forEach (heap (snd l) a) (concat (map citations (delivered (Chunk chunk # evs)))))"
    by (simp add: on_chunk_heap forEach_append)
  with "3.IH" show ?case by (simp del: fun_upd_apply)
next
  case (4 aid a l chunks evs)
  have "(heap (snd (on_burst aid a l chunks)))
          (a := forEach (heap (snd (on_burst aid a l chunks)) a)
                  (concat (map citations (delivered evs))))
        = (heap (snd l))
            (a := forEach (heap (snd l) a) (concat (map citations (delivered (Burst chunks # evs)))))"
    by (simp add: on_burst_heap forEach_append)
  with "4.IH" show ?case by (simp del: fun_upd_apply)
qed simp_all

lemma for_await_tracks: "tracks aid l \<Longrightarrow> tracks aid (snd (for_await aid a l evs))"
  by (induction aid a l evs rule: for_await.induct)
    (simp_all add: on_chunk_tracks on_burst_tracks)

lemma for_await_no_fault: "IterFault \<notin> set evs \<Longrightarrow> fst (for_await aid a l evs) = None"
  by (induction aid a l evs rule: for_await.induct) simp_all

lemma for_await_fault:
  "IterFault \<notin> set evs \<Longrightarrow>
   for_await aid a l (evs @ IterFault # rest) = (Some ChatError, snd (for_await aid a l evs))"
  by (induction aid a l evs rule: for_await.induct) simp_all

lemma for_await_no_text:
  "\<forall>c \<in> set (delivered evs). \<not> truthy (text_delta c) \<Longrightarrow>
   messages (snd (snd (for_await aid a l evs))) = messages (snd l)"
  by (induction aid a l evs rule: for_await.induct)
    (simp_all add: on_chunk_messages on_burst_messages)

lemma fold_content:
  "fst (fold (\<lambda>c l. on_chunk aid a l c) cs l) = fst l @ concat (map text_delta cs)"
  by (induction cs arbitrary: l) (simp_all add: on_chunk_content)

lemma fold_heap:
  "heap (snd (fold (\<lambda>c l. on_chunk aid a l c) cs l)) =
     (heap (snd l))(a := forEach (heap (snd l) a) (concat (map citations cs)))"
  by (induction cs arbitrary: l) (simp_all add: on_chunk_heap forEach_append)

lemma fold_tracks: "tracks aid l \<Longrightarrow> tracks aid (fold (\<lambda>c l. on_chunk aid a l c) cs l)"
  by (induction cs arbitrary: l) (simp_all add: on_chunk_tracks)

lemma open_stream_tracks:
  "tracks (toString (assistant_now clk + 1)) ([], open_stream st clk)"
  by (simp add: tracks_def open_stream_def placeholder_def)

section \<open>One exchange\<close>

lemma handleSubmit_total: "\<exists>st'. handleSubmit st clk r = Inr st'"
  by (simp add: handleSubmit_def split: prod.splits option.splits)

lemma handleSubmit_accepted:
  "truthy (trim (input st)) \<Longrightarrow> \<not> isLoading st \<Longrightarrow>
   handleSubmit st clk r =
     (case try_block (begin_submit st clk) clk r of
        (None, st') \<Rightarrow> Inr (st'\<lparr>isLoading := False\<rparr>)
      | (Some e, st') \<Rightarrow> Inr ((catch_block st' clk)\<lparr>isLoading := False\<rparr>))"
  by (simp add: handleSubmit_def)

lemma handleSubmit_stream:
  "truthy (trim (input st)) \<Longrightarrow> \<not> isLoading st \<Longrightarrow>
   handleSubmit st clk (ResponseStream (map Chunk cs)) =
     Inr ((snd (fold (\<lambda>c l. on_chunk (toString (assistant_now clk + 1)) (nextRef st) l c) cs
                  ([], open_stream (begin_submit st clk) clk)))\<lparr>isLoading := False\<rparr>)"
  by (simp add: handleSubmit_accepted try_block_def for_await_chunks begin_submit_def Let_def)

lemma handleSubmit_no_fault:
  "truthy (trim (input st)) \<Longrightarrow> \<not> isLoading st \<Longrightarrow> IterFault \<notin> set evs \<Longrightarrow>
   handleSubmit st clk (ResponseStream evs) =
     Inr ((snd (snd (for_await (toString (assistant_now clk + 1)) (nextRef st)
                       ([], open_stream (begin_submit st clk) clk) evs)))\<lparr>isLoading := False\<rparr>)"
  by (simp add: handleSubmit_accepted try_block_def for_await_no_fault begin_submit_def Let_def)

lemma handleSubmit_fault:
  "truthy (trim (input st)) \<Longrightarrow> \<not> isLoading st \<Longrightarrow> IterFault \<notin> set evs \<Longrightarrow>
   handleSubmit st clk (ResponseStream (evs @ IterFault # rest)) =
     Inr ((snd (snd (for_await (toString (assistant_now clk + 1)) (nextRef st)
                       ([], open_stream (begin_submit st clk) clk) evs)))
          \<lparr>messages :=
             messages (snd (snd (for_await (toString (assistant_now clk + 1)) (nextRef st)
                       ([], open_stream (begin_submit st clk) clk) evs))) @ [apology clk],
           isLoading := False\<rparr>)"
  by (simp add: handleSubmit_accepted try_block_def for_await_fault catch_block_def
      begin_submit_def Let_def)

text \<open>
  Whatever the chunks cite and however they arrive: as long as none of them carries a text
  that is not empty, no update is issued, and the exchange ends with the placeholder as it
  was appended.
\<close>

lemma no_text_no_patch:
  assumes "truthy (trim (input st))" and "\<not> isLoading st" and "IterFault \<notin> set evs"
    and "\<forall>c \<in> set (delivered evs). \<not> truthy (text_delta c)"
  shows "\<exists>st'. handleSubmit st clk (ResponseStream evs) = Inr st'
           \<and> messages st' = messages st @ [userMessage st clk, placeholder clk]"
  using assms
  by (simp add: handleSubmit_no_fault for_await_no_text open_stream_def begin_submit_def)

text \<open>
  With a text before the citation, the schedule decides: when the chunk with the text "a"
  and the chunk that only cites arrive in one burst, the updater runs after both and the
  placeholder refers to the array with the pair; when each arrives on its own, the updater
  runs before the pair is in the array, and the placeholder is left without sources.
\<close>

lemma schedule_decides_sources:
  "map sources (messages (projr (handleSubmit (typed ''q'') (ticks 1000 1002 1005)
      (ResponseStream [Burst [text_chunk ''a'', cited_chunk None [web_chunk ''a'' ''A'']]]))))
     = [None, None, Some 0]
   \<and> map sources (messages (projr (handleSubmit (typed ''q'') (ticks 1000 1002 1005)
      (ResponseStream [Chunk (text_chunk ''a''),
                       Chunk (cited_chunk None [web_chunk ''a'' ''A''])]))))
     = [None, None, None]
   \<and> heap (projr (handleSubmit (typed ''q'') (ticks 1000 1002 1005)
      (ResponseStream [Burst [text_chunk ''a'', cited_chunk None [web_chunk ''a'' ''A'']]]))) 0
     = [\<lparr>uri = ascii ''a'', title = ascii ''A''\<rparr>]
   \<and> heap (projr (handleSubmit (typed ''q'') (ticks 1000 1002 1005)
      (ResponseStream [Chunk (text_chunk ''a''),
                       Chunk (cited_chunk None [web_chunk ''a'' ''A''])]))) 0
     = [\<lparr>uri = ascii ''a'', title = ascii ''A''\<rparr>]"
  by (simp add: model_defs)

lemma try_block_patched:
  "patched (toString (assistant_now clk + 1)) (messages st @ [placeholder clk])
     (messages (snd (try_block st clk (ResponseStream evs))))"
proof -
  have "patched (toString (assistant_now clk + 1)) (messages st @ [placeholder clk])
          (messages (snd ([] :: jsstring, open_stream st clk)))"
    by (simp add: open_stream_def patched_refl)
  then show ?thesis
    unfolding try_block_def by (simp add: Let_def for_await_patched)
qed

text \<open>
  The shape of the message list after an accepted submission: the earlier messages, the
  user message and what the \<open>try\<close> block appended, with at most the messages of the
  placeholder's id patched, and then what the \<open>catch\<close> block appended.
\<close>

lemma handleSubmit_shape:
  assumes "truthy (trim (input st))" and "\<not> isLoading st"
  shows "\<exists>st' ms' rest0 more. handleSubmit st clk r = Inr st'
           \<and> messages st' = ms' @ more
           \<and> patched (toString (assistant_now clk + 1))
                (messages st @ userMessage st clk # rest0) ms'"
proof (cases r)
  case (ResponseStream evs)
  let ?st1 = "begin_submit st clk"
  let ?tb = "try_block ?st1 clk (ResponseStream evs)"
  have p: "patched (toString (assistant_now clk + 1))
            (messages st @ userMessage st clk # [placeholder clk]) (messages (snd ?tb))"
    using try_block_patched [of clk ?st1 evs] by (simp add: begin_submit_def)
  show ?thesis
  proof (cases "fst ?tb")
    case None
    then have "handleSubmit st clk r = Inr ((snd ?tb)\<lparr>isLoading := False\<rparr>)"
      using assms ResponseStream by (simp add: handleSubmit_accepted case_prod_beta)
    moreover have "messages ((snd ?tb)\<lparr>isLoading := False\<rparr>) = messages (snd ?tb) @ []"
      by simp
    ultimately show ?thesis using p by blast
  next
    case (Some e)
    then have "handleSubmit st clk r = Inr ((catch_block (snd ?tb) clk)\<lparr>isLoading := False\<rparr>)"
      using assms ResponseStream by (simp add: handleSubmit_accepted case_prod_beta)
    moreover have "messages ((catch_block (snd ?tb) clk)\<lparr>isLoading := False\<rparr>)
                   = messages (snd ?tb) @ [apology clk]"
      by (simp add: catch_block_def)
    ultimately show ?thesis using p by blast
  qed
next
  case ContextFault
  have "handleSubmit st clk r =
      Inr ((catch_block (begin_submit st clk) clk)\<lparr>isLoading := False\<rparr>)"
    using assms ContextFault by (simp add: handleSubmit_accepted try_block_def)
  moreover have "messages ((catch_block (begin_submit st clk) clk)\<lparr>isLoading := False\<rparr>)
      = (messages st @ userMessage st clk # []) @ [apology clk]"
    by (simp add: catch_block_def begin_submit_def)
  ultimately show ?thesis using patched_refl by blast
next
  case SendFault
  have "handleSubmit st clk r =
      Inr ((catch_block (begin_submit st clk) clk)\<lparr>isLoading := False\<rparr>)"
    using assms SendFault by (simp add: handleSubmit_accepted try_block_def)
  moreover have "messages ((catch_block (begin_submit st clk) clk)\<lparr>isLoading := False\<rparr>)
      = (messages st @ userMessage st clk # []) @ [apology clk]"
    by (simp add: catch_block_def begin_submit_def)
  ultimately show ?thesis using patched_refl by blast
qed

section \<open>Sessions\<close>

lemma handleSubmit_keeps_head:
  assumes "messages st = g # rest" and "id_msg g \<noteq> toString (assistant_now clk + 1)"
    and "handleSubmit st clk r = Inr st'"
  shows "\<exists>rest'. messages st' = g # rest'"
proof (cases "\<not> truthy (trim (input st)) \<or> isLoading st")
  case True
  with assms show ?thesis by (auto simp: handleSubmit_def)
next
  case False
  let ?st1 = "begin_submit st clk"
  have m1: "messages ?st1 = g # (rest @ [userMessage st clk])"
    using assms(1) by (simp add: begin_submit_def)
  have "\<exists>rest'. messages (snd (try_block ?st1 clk r)) = g # rest'"
  proof (cases r)
    case (ResponseStream evs)
    have "patched (toString (assistant_now clk + 1))
            (g # (rest @ [userMessage st clk, placeholder clk]))
            (messages (snd (try_block ?st1 clk (ResponseStream evs))))"
      using try_block_patched [of clk ?st1 evs] by (simp add: m1)
    then show ?thesis using assms(2) ResponseStream by (auto dest: patched_head)
  qed (simp_all add: try_block_def m1)
  then obtain more where tb: "messages (snd (try_block ?st1 clk r)) = g # more" by blast
  from False assms(3) have "messages st' = messages (snd (try_block ?st1 clk r))
      \<or> messages st' = messages (snd (try_block ?st1 clk r)) @ [apology clk]"
    by (auto simp: handleSubmit_def catch_block_def split: prod.splits option.splits)
  with tb show ?thesis by auto
qed

lemma try_block_keeps_head:
  assumes "messages st = g # rest" and "id_msg g \<noteq> toString (assistant_now clk + 1)"
  shows "\<exists>rest'. messages (snd (try_block (begin_submit st clk) clk r)) = g # rest'"
proof (cases r)
  case (ResponseStream evs)
  have "patched (toString (assistant_now clk + 1))
          (g # (rest @ [userMessage st clk, placeholder clk]))
          (messages (snd (try_block (begin_submit st clk) clk (ResponseStream evs))))"
    using try_block_patched [of clk "begin_submit st clk" evs] assms(1)
    by (simp add: begin_submit_def)
  then show ?thesis using assms(2) ResponseStream by (auto dest: patched_head)
qed (simp_all add: try_block_def begin_submit_def assms(1))

lemma session_keeps_head:
  "messages st = g # rest \<Longrightarrow> id_msg g = ascii ''1'' \<Longrightarrow>
   \<forall>x \<in> set xs. assistant_now (fst (snd x)) \<noteq> 0 \<Longrightarrow>
   \<exists>rest'. messages (session st xs) = g # rest'"
proof (induction xs arbitrary: st rest)
  case Nil
  then show ?case by simp
next
  case (Cons x xs)
  obtain inp clk r where xeq: "x = (inp, clk, r)" by (cases x) auto
  obtain st' where h: "handleSubmit (st\<lparr>input := inp\<rparr>) clk r = Inr st'"
    using handleSubmit_total by blast
  have "assistant_now clk \<noteq> 0" using Cons.prems(3) xeq by simp
  then have "id_msg g \<noteq> toString (assistant_now clk + 1)"
    using Cons.prems(2) toString_one [of "assistant_now clk + 1"] by auto
  with h Cons.prems(1) obtain rest' where "messages st' = g # rest'"
    using handleSubmit_keeps_head [of "st\<lparr>input := inp\<rparr>" g rest clk r st'] by auto
  then have "\<exists>rest''. messages (session st' xs) = g # rest''"
    using Cons.IH Cons.prems(2,3) by simp
  then show ?case using xeq h by simp
qed

section \<open>The properties\<close>

subsection \<open>C1: the content grows by concatenation\<close>

text \<open>
  C1. In an exchange whose stream delivers the chunks \<open>cs\<close>, the loop reaches, after the
  first \<open>k\<close> chunks, a state in which the accumulated content and the content of the
  assistant message are the concatenation of the first \<open>k\<close> text deltas, in order; the
  whole run continues from that state; and the exchange ends with the assistant message,
  the last of the list, holding the concatenation of all the deltas. However the chunks
  arrive, on their own or in bursts, the accumulated content is the concatenation of the
  deltas of the chunks taken, and a stream that ends without a fault leaves it in the
  assistant message.
\<close>

theorem content_is_concatenation:
  assumes "truthy (trim (input st))" and "\<not> isLoading st" and "k \<le> length cs"
  shows "\<exists>acc stk st'.
           for_await (toString (assistant_now clk + 1)) (nextRef st)
             ([], open_stream (begin_submit st clk) clk) (map Chunk (take k cs)) = (None, acc, stk)
         \<and> acc = concat (map text_delta (take k cs))
         \<and> content (last (messages stk)) = acc
         \<and> for_await (toString (assistant_now clk + 1)) (nextRef st)
             ([], open_stream (begin_submit st clk) clk) (map Chunk cs)
           = for_await (toString (assistant_now clk + 1)) (nextRef st) (acc, stk)
               (map Chunk (drop k cs))
         \<and> handleSubmit st clk (ResponseStream (map Chunk cs)) = Inr st'
         \<and> id_msg (last (messages st')) = toString (assistant_now clk + 1)
         \<and> role (last (messages st')) = Assistant
         \<and> content (last (messages st')) = concat (map text_delta cs)
         \<and> fst (snd (for_await (toString (assistant_now clk + 1)) (nextRef st)
                        ([], open_stream (begin_submit st clk) clk) evs))
             = concat (map text_delta (delivered evs))
         \<and> (IterFault \<notin> set evs \<longrightarrow>
              (\<exists>st''. handleSubmit st clk (ResponseStream evs) = Inr st''
                 \<and> id_msg (last (messages st'')) = toString (assistant_now clk + 1)
                 \<and> content (last (messages st'')) = concat (map text_delta (delivered evs))))"
proof -
  let ?aid = "toString (assistant_now clk + 1)"
  let ?l0 = "([] :: jsstring, open_stream (begin_submit st clk) clk)"
  let ?run = "\<lambda>xs. fold (\<lambda>c l. on_chunk ?aid (nextRef st) l c) xs ?l0"
  have t: "tracks ?aid (?run xs)" for xs
    by (rule fold_tracks) (rule open_stream_tracks)
  have c: "fst (?run xs) = concat (map text_delta xs)" for xs
    by (simp add: fold_content)
  have split: "for_await ?aid (nextRef st) ?l0 (map Chunk cs)
               = for_await ?aid (nextRef st) (?run (take k cs)) (map Chunk (drop k cs))"
  proof -
    have "map Chunk cs = map Chunk (take k cs) @ map Chunk (drop k cs)"
      by (simp flip: map_append)
    then show ?thesis by (simp only: for_await_append)
  qed
  have run_k: "for_await ?aid (nextRef st) ?l0 (map Chunk (take k cs))
        = (None, fst (?run (take k cs)), snd (?run (take k cs)))"
    by (simp add: for_await_chunks)
  have hs: "handleSubmit st clk (ResponseStream (map Chunk cs))
                 = Inr ((snd (?run cs))\<lparr>isLoading := False\<rparr>)"
    using assms(1,2) by (rule handleSubmit_stream)
  show ?thesis
  proof (intro exI conjI)
    show "for_await ?aid (nextRef st) ?l0 (map Chunk (take k cs))
          = (None, fst (?run (take k cs)), snd (?run (take k cs)))"
      by (rule run_k)
    show "fst (?run (take k cs)) = concat (map text_delta (take k cs))"
      by (rule c)
    show "content (last (messages (snd (?run (take k cs))))) = fst (?run (take k cs))"
      using t [of "take k cs"] by (simp add: tracks_def)
    show "for_await ?aid (nextRef st) ?l0 (map Chunk cs)
          = for_await ?aid (nextRef st) (fst (?run (take k cs)), snd (?run (take k cs)))
              (map Chunk (drop k cs))"
      using split by simp
    show "handleSubmit st clk (ResponseStream (map Chunk cs))
          = Inr ((snd (?run cs))\<lparr>isLoading := False\<rparr>)"
      by (rule hs)
    show "id_msg (last (messages ((snd (?run cs))\<lparr>isLoading := False\<rparr>))) = ?aid"
      using t [of cs] by (simp add: tracks_def)
    show "role (last (messages ((snd (?run cs))\<lparr>isLoading := False\<rparr>))) = Assistant"
      using t [of cs] by (simp add: tracks_def)
    show "content (last (messages ((snd (?run cs))\<lparr>isLoading := False\<rparr>)))
          = concat (map text_delta cs)"
      using t [of cs] c [of cs] by (simp add: tracks_def)
    show "fst (snd (for_await ?aid (nextRef st) ?l0 evs))
          = concat (map text_delta (delivered evs))"
      by (simp add: for_await_content)
    show "IterFault \<notin> set evs \<longrightarrow>
              (\<exists>st''. handleSubmit st clk (ResponseStream evs) = Inr st''
                 \<and> id_msg (last (messages st'')) = ?aid
                 \<and> content (last (messages st'')) = concat (map text_delta (delivered evs)))"
    proof
      assume nf: "IterFault \<notin> set evs"
      let ?fin = "snd (for_await ?aid (nextRef st) ?l0 evs)"
      have "tracks ?aid ?fin"
        by (rule for_await_tracks) (rule open_stream_tracks)
      then have "id_msg (last (messages (snd ?fin))) = ?aid"
        and "content (last (messages (snd ?fin))) = concat (map text_delta (delivered evs))"
        by (simp_all add: tracks_def for_await_content)
      then show "\<exists>st''. handleSubmit st clk (ResponseStream evs) = Inr st''
                 \<and> id_msg (last (messages st'')) = ?aid
                 \<and> content (last (messages st'')) = concat (map text_delta (delivered evs))"
        using assms(1,2) nf by (simp add: handleSubmit_no_fault)
    qed
  qed
qed

text \<open>
  "Hello" answered by the chunks "Hi " and "there!": the content is "Hi " after the first
  chunk and "Hi there!" at the end, also when the two chunks arrive in one burst.
\<close>

theorem content_is_concatenation_witness:
  "fst (snd (for_await (ascii ''1003'') 0
       ([], open_stream (begin_submit (typed ''Hello'') (ticks 1000 1002 1005))
              (ticks 1000 1002 1005))
       (map Chunk (take 1 [text_chunk ''Hi '', text_chunk ''there!''])))) = ascii ''Hi ''
   \<and> content (last (messages (projr (handleSubmit (typed ''Hello'') (ticks 1000 1002 1005)
        (ResponseStream (map Chunk [text_chunk ''Hi '', text_chunk ''there!'']))))))
      = ascii ''Hi there!''
   \<and> content (last (messages (projr (handleSubmit (typed ''Hello'') (ticks 1000 1002 1005)
        (ResponseStream [Burst [text_chunk ''Hi '', text_chunk ''there!'']])))))
      = ascii ''Hi there!''"
proof -
  let ?cs = "[text_chunk ''Hi '', text_chunk ''there!'']"
  have a: "truthy (trim (input (typed ''Hello'')))" and b: "\<not> isLoading (typed ''Hello'')"
    and k: "1 \<le> length ?cs"
    by (simp_all add: model_defs)
  have i: "toString (assistant_now (ticks 1000 1002 1005) + 1) = ascii ''1003''"
    and n: "nextRef (typed ''Hello'') = 0"
    by (simp_all add: model_defs)
  have nf: "IterFault \<notin> set [Burst ?cs]"
    by simp
  from content_is_concatenation [OF a b k, of "ticks 1000 1002 1005" "[Burst ?cs]"] nf
  obtain acc stk st' st'' where
    "for_await (ascii ''1003'') 0
       ([], open_stream (begin_submit (typed ''Hello'') (ticks 1000 1002 1005))
              (ticks 1000 1002 1005)) (map Chunk (take 1 ?cs)) = (None, acc, stk)"
    and "acc = concat (map text_delta (take 1 ?cs))"
    and "handleSubmit (typed ''Hello'') (ticks 1000 1002 1005) (ResponseStream (map Chunk ?cs))
         = Inr st'"
    and "content (last (messages st')) = concat (map text_delta ?cs)"
    and "handleSubmit (typed ''Hello'') (ticks 1000 1002 1005) (ResponseStream [Burst ?cs])
         = Inr st''"
    and "content (last (messages st'')) = concat (map text_delta (delivered [Burst ?cs]))"
    unfolding i n by blast
  then show ?thesis
    by (simp add: text_delta_def text_chunk_def ascii_def)
qed

subsection \<open>C2: the source merge\<close>

text \<open>
  C2 (amended). The merge keeps, of the citation entries delivered, the pairs whose uri
  and title are both present and not empty, one for each uri and in first-seen order: the
  result is \<open>first_seen\<close> of the kept pairs, its uris are distinct, and every kept pair
  that was delivered, however often, has its uri in the result exactly once. An entry
  without a uri or a title, or with an empty one, is discarded. Merging the same entries
  again changes nothing. At the end of an exchange the array of the exchange holds the
  merge of all the entries of its chunks, however the chunks arrive and also when the
  stream ends with a fault.
\<close>

theorem source_merge:
  "forEach [] gcs = first_seen (List.map_filter kept_pair gcs)
   \<and> distinct (map uri (forEach [] gcs))
   \<and> (\<forall>c \<in> set gcs. \<forall>p. kept_pair c = Some p \<longrightarrow>
         length (filter (\<lambda>s. uri s = uri p) (forEach [] gcs)) = 1)
   \<and> (pair_of c = None \<or> (\<exists>p. pair_of c = Some p \<and> (uri p = [] \<or> title p = [])) \<longrightarrow>
         push_source srcs c = srcs)
   \<and> forEach (forEach srcs gcs) gcs = forEach srcs gcs
   \<and> (truthy (trim (input st)) \<and> \<not> isLoading st \<longrightarrow>
        (\<exists>st'. handleSubmit st clk (ResponseStream (map Chunk cs)) = Inr st'
           \<and> heap st' (nextRef st) =
               first_seen (List.map_filter kept_pair (concat (map citations cs)))
           \<and> distinct (map uri (heap st' (nextRef st)))
           \<and> (\<forall>c \<in> set (concat (map citations cs)). \<forall>p. kept_pair c = Some p \<longrightarrow>
                 length (filter (\<lambda>s. uri s = uri p) (heap st' (nextRef st))) = 1)))
   \<and> (truthy (trim (input st)) \<and> \<not> isLoading st \<longrightarrow>
        (\<exists>st'. handleSubmit st clk (ResponseStream evs) = Inr st'
           \<and> heap st' (nextRef st) =
               first_seen (List.map_filter kept_pair (concat (map citations (delivered evs))))))"
proof (intro conjI)
  show "forEach [] gcs = first_seen (List.map_filter kept_pair gcs)"
    by (rule forEach_from_Nil)
  show "distinct (map uri (forEach [] gcs))"
    by (simp add: forEach_from_Nil distinct_first_seen)
  show "\<forall>c \<in> set gcs. \<forall>p. kept_pair c = Some p \<longrightarrow>
          length (filter (\<lambda>s. uri s = uri p) (forEach [] gcs)) = 1"
    using forEach_once by blast
  show "pair_of c = None \<or> (\<exists>p. pair_of c = Some p \<and> (uri p = [] \<or> title p = [])) \<longrightarrow>
          push_source srcs c = srcs"
    using push_source_discards by blast
  show "forEach (forEach srcs gcs) gcs = forEach srcs gcs"
    by (rule forEach_idem)
  show "truthy (trim (input st)) \<and> \<not> isLoading st \<longrightarrow>
        (\<exists>st'. handleSubmit st clk (ResponseStream (map Chunk cs)) = Inr st'
           \<and> heap st' (nextRef st) =
               first_seen (List.map_filter kept_pair (concat (map citations cs)))
           \<and> distinct (map uri (heap st' (nextRef st)))
           \<and> (\<forall>c \<in> set (concat (map citations cs)). \<forall>p. kept_pair c = Some p \<longrightarrow>
                 length (filter (\<lambda>s. uri s = uri p) (heap st' (nextRef st))) = 1))"
  proof
    assume a: "truthy (trim (input st)) \<and> \<not> isLoading st"
    let ?all = "concat (map citations cs)"
    let ?fin = "(snd (fold (\<lambda>c l. on_chunk (toString (assistant_now clk + 1)) (nextRef st) l c) cs
                  ([], open_stream (begin_submit st clk) clk)))\<lparr>isLoading := False\<rparr>"
    have h: "handleSubmit st clk (ResponseStream (map Chunk cs)) = Inr ?fin"
      using a by (simp add: handleSubmit_stream)
    have e: "heap ?fin (nextRef st) = forEach [] ?all"
      by (simp add: fold_heap open_stream_def begin_submit_def)
    have "heap ?fin (nextRef st) = first_seen (List.map_filter kept_pair ?all)"
      by (simp only: e forEach_from_Nil)
    moreover have "distinct (map uri (heap ?fin (nextRef st)))"
      by (simp only: e forEach_from_Nil distinct_first_seen)
    moreover have "\<forall>c \<in> set ?all. \<forall>p. kept_pair c = Some p \<longrightarrow>
                 length (filter (\<lambda>s. uri s = uri p) (heap ?fin (nextRef st))) = 1"
      unfolding e using forEach_once by blast
    ultimately show "\<exists>st'. handleSubmit st clk (ResponseStream (map Chunk cs)) = Inr st'
           \<and> heap st' (nextRef st) =
               first_seen (List.map_filter kept_pair (concat (map citations cs)))
           \<and> distinct (map uri (heap st' (nextRef st)))
           \<and> (\<forall>c \<in> set (concat (map citations cs)). \<forall>p. kept_pair c = Some p \<longrightarrow>
                 length (filter (\<lambda>s. uri s = uri p) (heap st' (nextRef st))) = 1)"
      using h by blast
  qed
  show "truthy (trim (input st)) \<and> \<not> isLoading st \<longrightarrow>
        (\<exists>st'. handleSubmit st clk (ResponseStream evs) = Inr st'
           \<and> heap st' (nextRef st) =
               first_seen (List.map_filter kept_pair (concat (map citations (delivered evs)))))"
  proof
    assume a: "truthy (trim (input st)) \<and> \<not> isLoading st"
    let ?tb = "try_block (begin_submit st clk) clk (ResponseStream evs)"
    have e: "heap (snd ?tb) (nextRef st) =
               first_seen (List.map_filter kept_pair (concat (map citations (delivered evs))))"
      by (simp add: try_block_def Let_def for_await_heap open_stream_def begin_submit_def
          forEach_from_Nil)
    have "handleSubmit st clk (ResponseStream evs) = Inr ((snd ?tb)\<lparr>isLoading := False\<rparr>)
        \<or> handleSubmit st clk (ResponseStream evs)
            = Inr ((catch_block (snd ?tb) clk)\<lparr>isLoading := False\<rparr>)"
      using a by (auto simp: handleSubmit_accepted split: prod.splits option.splits)
    then show "\<exists>st'. handleSubmit st clk (ResponseStream evs) = Inr st'
           \<and> heap st' (nextRef st) =
               first_seen (List.map_filter kept_pair (concat (map citations (delivered evs))))"
      using e by (auto simp: catch_block_def)
  qed
qed

text \<open>
  "Weather?" answered by one chunk that cites \<open>https://x\<close> twice: the array of the exchange
  holds the pair once.
\<close>

theorem source_merge_witness:
  "heap (projr (handleSubmit (typed ''Weather?'') (ticks 1000 1002 1005)
      (ResponseStream (map Chunk
         [cited_chunk (Some (ascii ''It's sunny.''))
            [web_chunk ''https://x'' ''X'', web_chunk ''https://x'' ''X'']])))) 0
   = [\<lparr>uri = ascii ''https://x'', title = ascii ''X''\<rparr>]"
proof -
  let ?cs = "[cited_chunk (Some (ascii ''It's sunny.''))
            [web_chunk ''https://x'' ''X'', web_chunk ''https://x'' ''X'']]"
  have a: "truthy (trim (input (typed ''Weather?''))) \<and> \<not> isLoading (typed ''Weather?'')"
    by (simp add: model_defs)
  have n: "nextRef (typed ''Weather?'') = 0"
    by (simp add: model_defs)
  from a source_merge [of "[]" "web_chunk [] []" "[]" "typed ''Weather?''" "ticks 1000 1002 1005"
      ?cs "[]"]
  obtain st' where
    "handleSubmit (typed ''Weather?'') (ticks 1000 1002 1005) (ResponseStream (map Chunk ?cs))
       = Inr st'"
    and "heap st' (nextRef (typed ''Weather?'')) =
           first_seen (List.map_filter kept_pair (concat (map citations ?cs)))"
    by blast
  then show ?thesis
    by (simp add: n citations_def kept_pair_def pair_of_def List.map_filter_def
        groundingChunks_of_def cited_chunk_def web_chunk_def truthy_def ascii_def)
qed

text \<open>
  The property as first stated fails for a pair with an empty field: the entry with the uri
  \<open>https://x\<close> and the empty title has both fields, and after it was delivered twice
  the list holds no pair with that uri.
\<close>

theorem empty_title_pair_dropped:
  "pair_of (web_chunk ''https://x'' []) = Some \<lparr>uri = ascii ''https://x'', title = []\<rparr>
   \<and> forEach [] [web_chunk ''https://x'' [], web_chunk ''https://x'' []] = []"
  by (simp add: pair_of_def model_defs)

subsection \<open>C3: faults\<close>

text \<open>
  C3. In an accepted exchange: when the creation of the context or the sending fails, the
  message list ends with the user message and one new assistant message with the fixed
  apology and no sources; when the iterator fails after the chunks \<open>cs\<close>, whatever would
  have followed is not processed, and the result is the state the loop had reached after
  \<open>cs\<close> with that one message appended, so the placeholder stays as it was, and the same
  holds after any events without a fault, chunks on their own or bursts; in every case the
  pending flag is cleared, and \<open>handleSubmit\<close> returns without an error.
\<close>

theorem fault_handling:
  assumes "truthy (trim (input st))" and "\<not> isLoading st"
  shows "(r = ContextFault \<or> r = SendFault \<longrightarrow>
            handleSubmit st clk r =
              Inr (st\<lparr>messages := messages st @ [userMessage st clk, apology clk], input := []\<rparr>))
       \<and> (\<exists>acc stk.
            for_await (toString (assistant_now clk + 1)) (nextRef st)
              ([], open_stream (begin_submit st clk) clk) (map Chunk cs) = (None, acc, stk)
            \<and> handleSubmit st clk (ResponseStream (map Chunk cs @ IterFault # rest)) =
                Inr (stk\<lparr>messages := messages stk @ [apology clk], isLoading := False\<rparr>))
       \<and> role (apology clk) = Assistant
       \<and> content (apology clk) = ascii ''I'm sorry, I encountered an error. Please try again.''
       \<and> sources (apology clk) = None
       \<and> (\<exists>st'. handleSubmit st clk r = Inr st' \<and> isLoading st' = False)
       \<and> (IterFault \<notin> set evs \<longrightarrow>
            (\<exists>acc stk.
               for_await (toString (assistant_now clk + 1)) (nextRef st)
                 ([], open_stream (begin_submit st clk) clk) evs = (None, acc, stk)
               \<and> handleSubmit st clk (ResponseStream (evs @ IterFault # rest)) =
                   Inr (stk\<lparr>messages := messages stk @ [apology clk], isLoading := False\<rparr>)))"
proof (intro conjI)
  show "r = ContextFault \<or> r = SendFault \<longrightarrow>
          handleSubmit st clk r =
            Inr (st\<lparr>messages := messages st @ [userMessage st clk, apology clk], input := []\<rparr>)"
    using assms
    by (auto simp: handleSubmit_accepted try_block_def catch_block_def begin_submit_def)
next
  let ?aid = "toString (assistant_now clk + 1)"
  let ?l0 = "([] :: jsstring, open_stream (begin_submit st clk) clk)"
  let ?lk = "fold (\<lambda>c l. on_chunk ?aid (nextRef st) l c) cs ?l0"
  have "for_await ?aid (nextRef st) ?l0 (map Chunk cs) = (None, fst ?lk, snd ?lk)"
    by (simp add: for_await_chunks)
  moreover have "handleSubmit st clk (ResponseStream (map Chunk cs @ IterFault # rest)) =
      Inr ((snd ?lk)\<lparr>messages := messages (snd ?lk) @ [apology clk], isLoading := False\<rparr>)"
    using assms
    by (simp add: handleSubmit_accepted try_block_def for_await_append catch_block_def
        begin_submit_def Let_def)
  ultimately show "\<exists>acc stk.
      for_await ?aid (nextRef st) ?l0 (map Chunk cs) = (None, acc, stk)
      \<and> handleSubmit st clk (ResponseStream (map Chunk cs @ IterFault # rest)) =
          Inr (stk\<lparr>messages := messages stk @ [apology clk], isLoading := False\<rparr>)"
    by blast
next
  show "\<exists>st'. handleSubmit st clk r = Inr st' \<and> isLoading st' = False"
    using assms by (simp add: handleSubmit_accepted split: prod.splits option.splits)
next
  let ?aid = "toString (assistant_now clk + 1)"
  let ?l0 = "([] :: jsstring, open_stream (begin_submit st clk) clk)"
  show "IterFault \<notin> set evs \<longrightarrow>
            (\<exists>acc stk.
               for_await ?aid (nextRef st) ?l0 evs = (None, acc, stk)
               \<and> handleSubmit st clk (ResponseStream (evs @ IterFault # rest)) =
                   Inr (stk\<lparr>messages := messages stk @ [apology clk], isLoading := False\<rparr>))"
  proof
    assume nf: "IterFault \<notin> set evs"
    let ?res = "for_await ?aid (nextRef st) ?l0 evs"
    have "?res = (None, fst (snd ?res), snd (snd ?res))"
      using for_await_no_fault [OF nf, of ?aid "nextRef st" ?l0]
      by (simp add: prod_eq_iff)
    moreover have "handleSubmit st clk (ResponseStream (evs @ IterFault # rest)) =
        Inr ((snd (snd ?res))\<lparr>messages := messages (snd (snd ?res)) @ [apology clk],
                                 isLoading := False\<rparr>)"
      using assms nf by (rule handleSubmit_fault)
    ultimately show "\<exists>acc stk.
               for_await ?aid (nextRef st) ?l0 evs = (None, acc, stk)
               \<and> handleSubmit st clk (ResponseStream (evs @ IterFault # rest)) =
                   Inr (stk\<lparr>messages := messages stk @ [apology clk], isLoading := False\<rparr>)"
      by blast
  qed
qed (simp_all add: apology_def)

text \<open>
  "Hello", with the iterator failing after the chunk "Hi ": the greeting, the user message,
  the placeholder with "Hi " and the apology; and with the sending failing: the greeting,
  the user message and the apology.
\<close>

theorem fault_handling_witness:
  "map content (messages (projr (handleSubmit (typed ''Hello'') (ticks 1000 1002 1005)
      (ResponseStream (map Chunk [text_chunk ''Hi ''] @ IterFault # [Chunk (text_chunk ''there!'')])))))
   = [content (greeting 0), ascii ''Hello'', ascii ''Hi '',
      ascii ''I'm sorry, I encountered an error. Please try again.'']
   \<and> isLoading (projr (handleSubmit (typed ''Hello'') (ticks 1000 1002 1005)
      (ResponseStream (map Chunk [text_chunk ''Hi ''] @ IterFault # [Chunk (text_chunk ''there!'')]))))
     = False
   \<and> map content (messages (projr (handleSubmit (typed ''Hello'') (ticks 1000 1002 1005) SendFault)))
     = [content (greeting 0), ascii ''Hello'',
        ascii ''I'm sorry, I encountered an error. Please try again.'']"
proof -
  let ?cs = "[text_chunk ''Hi '']"
  let ?rest = "[Chunk (text_chunk ''there!'')]"
  have a: "truthy (trim (input (typed ''Hello'')))" and b: "\<not> isLoading (typed ''Hello'')"
    by (simp_all add: model_defs)
  note f = fault_handling [OF a b, of _ "ticks 1000 1002 1005" ?cs ?rest "[]"]
  from f [of SendFault]
  have s: "handleSubmit (typed ''Hello'') (ticks 1000 1002 1005) SendFault =
      Inr ((typed ''Hello'')\<lparr>messages := messages (typed ''Hello'') @
             [userMessage (typed ''Hello'') (ticks 1000 1002 1005), apology (ticks 1000 1002 1005)],
           input := []\<rparr>)"
    by simp
  from f [of SendFault] obtain acc stk where
    r: "for_await (toString (assistant_now (ticks 1000 1002 1005) + 1)) (nextRef (typed ''Hello''))
         ([], open_stream (begin_submit (typed ''Hello'') (ticks 1000 1002 1005))
                (ticks 1000 1002 1005)) (map Chunk ?cs) = (None, acc, stk)"
    and h: "handleSubmit (typed ''Hello'') (ticks 1000 1002 1005)
         (ResponseStream (map Chunk ?cs @ IterFault # ?rest))
       = Inr (stk\<lparr>messages := messages stk @ [apology (ticks 1000 1002 1005)],
                   isLoading := False\<rparr>)"
    by blast
  from r have "map content (messages stk) = [content (greeting 0), ascii ''Hello'', ascii ''Hi '']"
    by (auto simp: model_defs)
  with h s show ?thesis
    by (simp add: model_defs)
qed

subsection \<open>C4: what an accepted submission appends\<close>

text \<open>
  C4 (amended). An accepted submission appends exactly one user message. When the context
  is created and the message is sent, it then appends exactly one assistant placeholder
  (empty content, no sources, the decimal of the clock reading plus one as id), and the
  loop over the chunks starts from the list that ends with these two messages, in that
  order; with no chunk the exchange ends with that list. When the creation of the context
  or the sending fails, no placeholder is appended: the user message is followed by the
  apology.
\<close>

theorem submit_appends:
  assumes "truthy (trim (input st))" and "\<not> isLoading st"
  shows "handleSubmit st clk (ResponseStream evs) =
           (case for_await (toString (assistant_now clk + 1)) (nextRef st)
                   ([], open_stream (begin_submit st clk) clk) evs of
              (None, acc, s) \<Rightarrow> Inr (s\<lparr>isLoading := False\<rparr>)
            | (Some e, acc, s) \<Rightarrow> Inr ((catch_block s clk)\<lparr>isLoading := False\<rparr>))
       \<and> messages (open_stream (begin_submit st clk) clk) =
           messages st @ [userMessage st clk, placeholder clk]
       \<and> role (userMessage st clk) = User
       \<and> role (placeholder clk) = Assistant \<and> content (placeholder clk) = []
       \<and> sources (placeholder clk) = None
       \<and> id_msg (placeholder clk) = toString (assistant_now clk + 1)
       \<and> (\<exists>st'. handleSubmit st clk (ResponseStream []) = Inr st'
              \<and> messages st' = messages st @ [userMessage st clk, placeholder clk])
       \<and> (r = ContextFault \<or> r = SendFault \<longrightarrow>
            (\<exists>st'. handleSubmit st clk r = Inr st'
               \<and> messages st' = messages st @ [userMessage st clk, apology clk]))"
proof (intro conjI)
  show "handleSubmit st clk (ResponseStream evs) =
           (case for_await (toString (assistant_now clk + 1)) (nextRef st)
                   ([], open_stream (begin_submit st clk) clk) evs of
              (None, acc, s) \<Rightarrow> Inr (s\<lparr>isLoading := False\<rparr>)
            | (Some e, acc, s) \<Rightarrow> Inr ((catch_block s clk)\<lparr>isLoading := False\<rparr>))"
    using assms
    by (simp add: handleSubmit_accepted try_block_def begin_submit_def Let_def
        split: prod.splits option.splits)
  show "messages (open_stream (begin_submit st clk) clk) =
           messages st @ [userMessage st clk, placeholder clk]"
    by (simp add: open_stream_def begin_submit_def)
  show "\<exists>st'. handleSubmit st clk (ResponseStream []) = Inr st'
              \<and> messages st' = messages st @ [userMessage st clk, placeholder clk]"
    using assms
    by (simp add: handleSubmit_accepted try_block_def begin_submit_def open_stream_def Let_def)
  show "r = ContextFault \<or> r = SendFault \<longrightarrow>
            (\<exists>st'. handleSubmit st clk r = Inr st'
               \<and> messages st' = messages st @ [userMessage st clk, apology clk])"
    using assms
    by (auto simp: handleSubmit_accepted try_block_def begin_submit_def catch_block_def)
qed (simp_all add: userMessage_def placeholder_def)

text \<open>"Hello" with an empty stream, and "Hello" with a failing context.\<close>

theorem submit_appends_witness:
  "messages (projr (handleSubmit (typed ''Hello'') (ticks 1000 1002 1005) (ResponseStream [])))
   = [greeting 0, userMessage (typed ''Hello'') (ticks 1000 1002 1005),
      placeholder (ticks 1000 1002 1005)]
   \<and> messages (projr (handleSubmit (typed ''Hello'') (ticks 1000 1002 1005) ContextFault))
   = [greeting 0, userMessage (typed ''Hello'') (ticks 1000 1002 1005),
      apology (ticks 1000 1002 1005)]"
proof -
  have a: "truthy (trim (input (typed ''Hello'')))" and b: "\<not> isLoading (typed ''Hello'')"
    by (simp_all add: model_defs)
  have m: "messages (typed ''Hello'') = [greeting 0]"
    by (simp add: typed_def initialState_def)
  from submit_appends [OF a b, of "ticks 1000 1002 1005" "[]" ContextFault]
  show ?thesis unfolding m by auto
qed

text \<open>
  The property as first stated fails when the sending fails: the submission is accepted,
  and the message after the user message is the apology, whose content is not empty.
\<close>

theorem no_placeholder_after_send_fault:
  "messages (projr (handleSubmit (typed ''Hello'') (ticks 1000 1002 1005) SendFault))
   = [greeting 0, userMessage (typed ''Hello'') (ticks 1000 1002 1005),
      apology (ticks 1000 1002 1005)]
   \<and> content (apology (ticks 1000 1002 1005)) \<noteq> []"
  by (simp add: model_defs)

subsection \<open>C5: rejected submissions\<close>

text \<open>
  C5. When the trimmed input is empty, which is when every code unit of the input is white
  space (the empty input included), or while an exchange is pending, \<open>handleSubmit\<close>
  returns without an error and leaves the whole state as it was: the message list, the
  input, the pending flag and the arrays.
\<close>

theorem submit_rejected:
  assumes "trim (input st) = [] \<or> (\<forall>c \<in> set (input st). isWhiteSpace c) \<or> isLoading st"
  shows "handleSubmit st clk r = Inr st"
  using assms by (auto simp: handleSubmit_def truthy_def trim_all_ws)

text \<open>
  The empty input and two spaces in the idle state, and "Hello" while an exchange is pending.
\<close>

theorem submit_rejected_witness:
  "handleSubmit (typed []) (ticks 1000 1002 1005) SendFault = Inr (typed [])
   \<and> handleSubmit (typed ''  '') (ticks 1000 1002 1005) SendFault = Inr (typed ''  '')
   \<and> handleSubmit ((typed ''Hello'')\<lparr>isLoading := True\<rparr>) (ticks 1000 1002 1005)
        (ResponseStream [Chunk (text_chunk ''Hi'')])
      = Inr ((typed ''Hello'')\<lparr>isLoading := True\<rparr>)"
proof -
  have a: "trim (input (typed [])) = [] \<or> (\<forall>c \<in> set (input (typed [])). isWhiteSpace c)
           \<or> isLoading (typed [])"
    by (simp add: typed_def ascii_def trim_def)
  have b: "trim (input (typed ''  '')) = []
           \<or> (\<forall>c \<in> set (input (typed ''  '')). isWhiteSpace c) \<or> isLoading (typed ''  '')"
    by (simp add: typed_def ascii_def isWhiteSpace_def)
  have c: "trim (input ((typed ''Hello'')\<lparr>isLoading := True\<rparr>)) = []
           \<or> (\<forall>c \<in> set (input ((typed ''Hello'')\<lparr>isLoading := True\<rparr>)). isWhiteSpace c)
           \<or> isLoading ((typed ''Hello'')\<lparr>isLoading := True\<rparr>)"
    by simp
  show ?thesis
    using submit_rejected [OF a] submit_rejected [OF b] submit_rejected [OF c] by simp
qed

subsection \<open>C6: the content of the user message\<close>

text \<open>
  C6 (amended). The user message of an accepted submission carries the input as it was
  typed, not trimmed: it stands right after the earlier messages with the role of the user
  and the decimal of the clock reading as id, and it is the message built from the
  untrimmed input as long as its id differs from the id of the placeholder.
\<close>

theorem user_message_untrimmed:
  assumes "truthy (trim (input st))" and "\<not> isLoading st"
  shows "content (userMessage st clk) = input st
       \<and> (\<exists>st'. handleSubmit st clk r = Inr st'
             \<and> length (messages st) < length (messages st')
             \<and> role (messages st' ! length (messages st)) = User
             \<and> id_msg (messages st' ! length (messages st)) = toString (user_now clk)
             \<and> (toString (user_now clk) \<noteq> toString (assistant_now clk + 1) \<longrightarrow>
                  messages st' ! length (messages st) = userMessage st clk))"
proof -
  let ?n = "length (messages st)"
  let ?aid = "toString (assistant_now clk + 1)"
  from handleSubmit_shape [OF assms, of clk r]
  obtain st' ms' rest0 more where h: "handleSubmit st clk r = Inr st'"
    and m: "messages st' = ms' @ more"
    and p: "patched ?aid (messages st @ userMessage st clk # rest0) ms'"
    by blast
  let ?ms = "messages st @ userMessage st clk # rest0"
  have n: "?n < length ?ms" by simp
  have u: "?ms ! ?n = userMessage st clk" by simp
  have len: "?n < length ms'" using patched_length [OF p] by simp
  then have at: "messages st' ! ?n = ms' ! ?n" by (simp add: m nth_append)
  from patched_nth [OF p n]
  have "id_msg (ms' ! ?n) = id_msg (userMessage st clk)"
    and "role (ms' ! ?n) = role (userMessage st clk)"
    and "id_msg (userMessage st clk) \<noteq> ?aid \<longrightarrow> ms' ! ?n = userMessage st clk"
    unfolding u by simp_all
  then have "role (messages st' ! ?n) = User"
    and "id_msg (messages st' ! ?n) = toString (user_now clk)"
    and "toString (user_now clk) \<noteq> ?aid \<longrightarrow> messages st' ! ?n = userMessage st clk"
    unfolding at by (simp_all add: userMessage_def)
  moreover have "?n < length (messages st')" using len by (simp add: m)
  moreover have "content (userMessage st clk) = input st" by (simp add: userMessage_def)
  ultimately show ?thesis using h by blast
qed

text \<open>The input " hi ", with a space on either side.\<close>

theorem user_message_untrimmed_witness:
  "messages (projr (handleSubmit (typed '' hi '') (ticks 1000 1002 1005) (ResponseStream [])))
     ! 1 = userMessage (typed '' hi '') (ticks 1000 1002 1005)
   \<and> content (userMessage (typed '' hi '') (ticks 1000 1002 1005)) = ascii '' hi ''"
proof -
  have a: "truthy (trim (input (typed '' hi '')))" and b: "\<not> isLoading (typed '' hi '')"
    by (simp_all add: model_defs)
  have d: "toString (user_now (ticks 1000 1002 1005))
           \<noteq> toString (assistant_now (ticks 1000 1002 1005) + 1)"
    by (simp add: model_defs)
  have l: "length (messages (typed '' hi '')) = 1"
    by (simp add: model_defs)
  from user_message_untrimmed [OF a b, of "ticks 1000 1002 1005" "ResponseStream []"] d
  show ?thesis unfolding l by (auto simp: typed_def)
qed

text \<open>
  The property as first stated fails for that input: the content of the user message is
  " hi ", and the trimmed input is "hi".
\<close>

theorem user_message_keeps_spaces:
  "content (messages (projr (handleSubmit (typed '' hi '') (ticks 1000 1002 1005)
       (ResponseStream []))) ! 1) = ascii '' hi ''
   \<and> trim (ascii '' hi '') = ascii ''hi''"
  by (simp add: model_defs)

subsection \<open>C7: when the placeholder is patched\<close>

text \<open>
  C7. The code does not do what the property asks for a chunk that carries citation entries
  and no text: the chunk changes the source accumulator, but the update of lines 115-121
  stands inside the test of the text (line 113), so none is issued. In the exchange of
  "Weather?" whose stream is that one chunk, on its own or as a burst, the array of the
  exchange receives the pair, and the exchange ends with no message that has sources.
\<close>

theorem citation_only_chunk_not_patched:
  "heap (projr (handleSubmit (typed ''Weather?'') (ticks 1000 1002 1005)
      (ResponseStream [Chunk (cited_chunk None [web_chunk ''https://x'' ''X''])]))) 0
   = [\<lparr>uri = ascii ''https://x'', title = ascii ''X''\<rparr>]
   \<and> map sources (messages (projr (handleSubmit (typed ''Weather?'') (ticks 1000 1002 1005)
      (ResponseStream [Chunk (cited_chunk None [web_chunk ''https://x'' ''X''])]))))
     = [None, None, None]
   \<and> heap (projr (handleSubmit (typed ''Weather?'') (ticks 1000 1002 1005)
      (ResponseStream [Burst [cited_chunk None [web_chunk ''https://x'' ''X'']]]))) 0
   = [\<lparr>uri = ascii ''https://x'', title = ascii ''X''\<rparr>]
   \<and> map sources (messages (projr (handleSubmit (typed ''Weather?'') (ticks 1000 1002 1005)
      (ResponseStream [Burst [cited_chunk None [web_chunk ''https://x'' ''X'']]]))))
     = [None, None, None]"
  by (simp add: model_defs)

text \<open>The placeholder, the last message of that exchange, has no sources.\<close>

theorem citation_only_chunk_not_patched_witness:
  "sources (last (messages (projr (handleSubmit (typed ''Weather?'') (ticks 1000 1002 1005)
      (ResponseStream [Chunk (cited_chunk None [web_chunk ''https://x'' ''X''])]))))) = None"
proof -
  let ?ms = "messages (projr (handleSubmit (typed ''Weather?'') (ticks 1000 1002 1005)
      (ResponseStream [Chunk (cited_chunk None [web_chunk ''https://x'' ''X''])])))"
  have m: "map sources ?ms = [None, None, None]"
    using citation_only_chunk_not_patched by blast
  then have "?ms \<noteq> []" by auto
  then have "sources (last ?ms) = last (map sources ?ms)" by (simp add: last_map)
  with m show ?thesis by simp
qed

subsection \<open>C8: patching an unknown id\<close>

text \<open>
  C8. Patching by an id that no message of the list has changes nothing: the result is the
  same list, with every message and every field as before.
\<close>

theorem updateById_unknown_id:
  assumes "assistantMessageId \<notin> id_msg ` set prev"
  shows "updateById assistantMessageId c s prev = prev"
  using assms by (induction prev) (auto simp: updateById_def)

theorem updateById_unknown_id_witness:
  "ascii ''7'' \<notin> id_msg ` set [greeting 0]
   \<and> updateById (ascii ''7'') (ascii ''x'') (Some 0) [greeting 0] = [greeting 0]"
proof -
  have h: "ascii ''7'' \<notin> id_msg ` set [greeting 0]"
    by (simp add: greeting_def ascii_def)
  show ?thesis using h updateById_unknown_id [OF h] by simp
qed

subsection \<open>C9: the ids of the messages\<close>

text \<open>
  C9. The ids of the messages are not always distinct. When the creation of the context
  fails within the millisecond of the submission, the clock reads the same in the
  \<open>catch\<close> block as at the user message, and the apology gets the id of the user message:
  with every reading at 1000 the ids of the conversation are 1, 1000 and 1000.
\<close>

theorem ids_collide:
  "map id_msg (messages (projr (handleSubmit (typed ''hi'') (ticks 1000 1000 1000) ContextFault)))
   = [ascii ''1'', ascii ''1000'', ascii ''1000'']"
  by (simp add: model_defs)

theorem ids_collide_witness:
  "\<not> distinct (map id_msg (messages (projr
       (handleSubmit (typed ''hi'') (ticks 1000 1000 1000) ContextFault))))"
  unfolding ids_collide by (simp add: ascii_def)

subsection \<open>C10: the greeting\<close>

text \<open>
  C10. The conversation starts with exactly one message, the greeting of the assistant with
  the id 1. A placeholder gets the id 1 only when the clock reads 0, the first millisecond
  of 1970, at the moment its id is made, which the clock of a running program does not
  read. Through any session of exchanges with other readings, the greeting stays the first
  message, unchanged, and everything else comes after it: between the exchanges, and in
  every state that the loop of an exchange in flight reaches.
\<close>

theorem greeting_stays_first:
  assumes "\<forall>x \<in> set xs. assistant_now (fst (snd x)) \<noteq> 0" and "assistant_now clk \<noteq> 0"
  shows "messages (initialState t0) = [greeting t0]
       \<and> id_msg (greeting t0) = ascii ''1'' \<and> role (greeting t0) = Assistant
       \<and> (\<exists>rest. messages (session (initialState t0) xs) = greeting t0 # rest)
       \<and> (\<exists>rest. messages (snd (try_block
              (begin_submit ((session (initialState t0) xs)\<lparr>input := inp\<rparr>) clk) clk r))
            = greeting t0 # rest)"
proof -
  have i: "id_msg (greeting t0) = ascii ''1''" by (simp add: greeting_def)
  obtain rest where s: "messages (session (initialState t0) xs) = greeting t0 # rest"
    using assms(1) session_keeps_head [of "initialState t0" "greeting t0" "[]" xs] i
    by (auto simp: initialState_def)
  have "id_msg (greeting t0) \<noteq> toString (assistant_now clk + 1)"
    using assms(2) i toString_one [of "assistant_now clk + 1"] by auto
  then have "\<exists>rest'. messages (snd (try_block
              (begin_submit ((session (initialState t0) xs)\<lparr>input := inp\<rparr>) clk) clk r))
            = greeting t0 # rest'"
    using s by (intro try_block_keeps_head) simp_all
  with s i show ?thesis by (simp add: initialState_def greeting_def)
qed

text \<open>
  A session of two exchanges, the second with a failing send, and a third exchange in
  flight after its first chunk.
\<close>

theorem greeting_stays_first_witness:
  "hd (messages (session (initialState 0)
      [(ascii ''Hello'', ticks 1000 1002 1005,
        ResponseStream [Chunk (text_chunk ''Hi ''), Chunk (text_chunk ''there!'')]),
       (ascii ''Again'', ticks 2000 2002 2005, SendFault)])) = greeting 0
   \<and> hd (messages (snd (try_block (begin_submit
        ((session (initialState 0)
           [(ascii ''Hello'', ticks 1000 1002 1005,
             ResponseStream [Chunk (text_chunk ''Hi ''), Chunk (text_chunk ''there!'')]),
            (ascii ''Again'', ticks 2000 2002 2005, SendFault)])\<lparr>input := ascii ''More''\<rparr>)
        (ticks 3000 3002 3005)) (ticks 3000 3002 3005)
        (ResponseStream [Chunk (text_chunk ''x'')])))) = greeting 0"
proof -
  let ?xs = "[(ascii ''Hello'', ticks 1000 1002 1005,
        ResponseStream [Chunk (text_chunk ''Hi ''), Chunk (text_chunk ''there!'')]),
       (ascii ''Again'', ticks 2000 2002 2005, SendFault)]"
  have a: "\<forall>x \<in> set ?xs. assistant_now (fst (snd x)) \<noteq> 0"
    by (simp add: ticks_def)
  have b: "assistant_now (ticks 3000 3002 3005) \<noteq> 0"
    by (simp add: ticks_def)
  from greeting_stays_first [OF a b, of 0 "ascii ''More''"
      "ResponseStream [Chunk (text_chunk ''x'')]"]
  obtain rest1 rest2 where
    "messages (session (initialState 0) ?xs) = greeting 0 # rest1"
    and "messages (snd (try_block (begin_submit
          ((session (initialState 0) ?xs)\<lparr>input := ascii ''More''\<rparr>)
          (ticks 3000 3002 3005)) (ticks 3000 3002 3005)
          (ResponseStream [Chunk (text_chunk ''x'')]))) = greeting 0 # rest2"
    by blast
  then show ?thesis by (simp only: list.sel simp_thms)
qed

end
